theory Spec2Isabelle
  imports Complex_Main "HOL-Library.Multiset"
begin

section \<open>DealDine backend: deal extraction and expiry notification\<close>

text \<open>
  A shallow embedding of \<^verbatim>\<open>src/dealdine-backend.js\<close>. Library and service calls
  (the mail provider, the extraction model, the HTML parser, \<^verbatim>\<open>JSON.parse\<close>, base64
  decoding, the record store's transport) are parameters of the model; everything the
  file itself computes is a definition below. JavaScript strings are modelled as
  \<^typ>\<open>string\<close> (ASCII), numbers read from attributes as \<^typ>\<open>int\<close>, \<^verbatim>\<open>null\<close> and
  \<^verbatim>\<open>undefined\<close> fields as \<^const>\<open>None\<close>.
\<close>

subsection \<open>JavaScript values\<close>

datatype error = Error string

text \<open>Truthiness of an optional string: \<^verbatim>\<open>undefined\<close>, \<^verbatim>\<open>null\<close> and \<^verbatim>\<open>''\<close> are falsy.\<close>

definition truthy :: "string option \<Rightarrow> bool" where
  "truthy v = (case v of None \<Rightarrow> False | Some s \<Rightarrow> s \<noteq> [])"

text \<open>\<^verbatim>\<open>s.startsWith(t)\<close> and \<^verbatim>\<open>s.includes(t)\<close>.\<close>

definition startsWith :: "string \<Rightarrow> string \<Rightarrow> bool" where
  "startsWith s t = (take (length t) s = t)"

fun str_includes :: "string \<Rightarrow> string \<Rightarrow> bool" where
  "str_includes [] t = (t = [])"
| "str_includes (c # cs) t = (startsWith (c # cs) t \<or> str_includes cs t)"

text \<open>\<^verbatim>\<open>s.toLowerCase()\<close> on ASCII text: only \<^verbatim>\<open>A\<close>..\<^verbatim>\<open>Z\<close> change.\<close>

definition lowerChar :: "char \<Rightarrow> char" where
  "lowerChar c = (let n = (of_char c :: nat) in if 65 \<le> n \<and> n \<le> 90 then char_of (n + 32) else c)"

definition toLowerCase :: "string \<Rightarrow> string" where
  "toLowerCase s = map lowerChar s"

text \<open>
  \<^verbatim>\<open>parseInt(v)\<close> with no radix, on an attribute value that may be \<^verbatim>\<open>undefined\<close>:
  leading white space is dropped, then an optional sign, then an optional \<^verbatim>\<open>0x\<close>
  prefix (which selects radix 16), then the longest run of digits of the radix.
  \<^const>\<open>None\<close> is \<^verbatim>\<open>NaN\<close>. The value is exact (a double's rounding of very long
  digit strings is not modelled).
\<close>

definition isWhiteSpace :: "char \<Rightarrow> bool" where
  "isWhiteSpace c = (let n = (of_char c :: nat) in n = 32 \<or> (9 \<le> n \<and> n \<le> 13))"

definition digitValue :: "char \<Rightarrow> nat option" where
  "digitValue c =
     (let n = (of_char c :: nat) in
      if 48 \<le> n \<and> n \<le> 57 then Some (n - 48)
      else if 97 \<le> n \<and> n \<le> 102 then Some (n - 87)
      else if 65 \<le> n \<and> n \<le> 70 then Some (n - 55)
      else None)"

definition radixDigit :: "nat \<Rightarrow> char \<Rightarrow> bool" where
  "radixDigit R c = (case digitValue c of None \<Rightarrow> False | Some v \<Rightarrow> v < R)"

definition digitsValue :: "nat \<Rightarrow> string \<Rightarrow> nat" where
  "digitsValue R Z = foldl (\<lambda>n c. n * R + (case digitValue c of None \<Rightarrow> 0 | Some v \<Rightarrow> v)) 0 Z"

definition parseInt :: "string option \<Rightarrow> int option" where
  "parseInt v =
     (case v of
        None \<Rightarrow> None
      | Some inputString \<Rightarrow>
          (let S = dropWhile isWhiteSpace inputString;
               sign = (if startsWith S ''-'' then - 1 else (1 :: int));
               S1 = (if startsWith S ''+'' \<or> startsWith S ''-'' then tl S else S);
               hex = (startsWith S1 ''0x'' \<or> startsWith S1 ''0X'');
               R = (if hex then 16 else 10);
               S2 = (if hex then drop 2 S1 else S1);
               Z = takeWhile (radixDigit R) S2
           in if Z = [] then None else Some (sign * int (digitsValue R Z))))"

text \<open>\<^verbatim>\<open>parseInt(v) || 0\<close>: \<^verbatim>\<open>NaN\<close> and \<^verbatim>\<open>0\<close> are falsy.\<close>

definition parseIntOr0 :: "string option \<Rightarrow> int" where
  "parseIntOr0 v = (case parseInt v of None \<Rightarrow> 0 | Some n \<Rightarrow> n)"

subsection \<open>Messages and MIME parts\<close>

text \<open>
  A node of the provider's part tree: \<^verbatim>\<open>mimeType\<close>, \<^verbatim>\<open>body.data\<close>,
  \<^verbatim>\<open>body.attachmentId\<close>, \<^verbatim>\<open>headers\<close> (name, value) and the optional array
  \<^verbatim>\<open>parts\<close>. An absent \<^verbatim>\<open>parts\<close> is \<^const>\<open>None\<close>; an array, also an empty one, is
  \<^const>\<open>Some\<close> (every array is truthy in JavaScript).
\<close>

datatype part = Part (mimeType: string) (body_data: "string option")
  (body_attachmentId: "string option") (headers: "(string \<times> string) list")
  (parts: "part list option")

record email =
  msg_id :: string
  payload :: part

text \<open>
  \<^verbatim>\<open>getAllParts(payload, parts = [])\<close>: the accumulator array is shared by the
  recursive calls, which push onto it; \<^verbatim>\<open>forEach\<close> is a left-to-right fold.
\<close>

fun getAllParts :: "part \<Rightarrow> part list \<Rightarrow> part list" where
  "getAllParts (Part m d a h (Some ps)) acc = fold getAllParts ps acc"
| "getAllParts (Part m d a h None) acc = acc @ [Part m d a h None]"




subsection \<open>Images\<close>

text \<open>
  What the HTML parser hands to the callback of \<^verbatim>\<open>$('img').each\<close>: the four
  attributes the code reads, each possibly absent.
\<close>

record img_elem =
  attr_src :: "string option"
  attr_alt :: "string option"
  attr_width :: "string option"
  attr_height :: "string option"

text \<open>
  An entry of \<^verbatim>\<open>dealImages\<close> or \<^verbatim>\<open>logoImages\<close>. The objects built from an
  \<^verbatim>\<open>img\<close> element carry \<^verbatim>\<open>url\<close>, \<^verbatim>\<open>alt\<close>, \<^verbatim>\<open>width\<close>, \<^verbatim>\<open>height\<close>; those built
  from an inline attachment carry \<^verbatim>\<open>attachmentId\<close> and \<^verbatim>\<open>mimeType\<close> only.
\<close>

record candidate =
  url :: "string option"
  alt :: "string option"
  width :: "int option"
  height :: "int option"
  attachmentId :: "string option"
  cand_mimeType :: "string option"

record images =
  dealImages :: "candidate list"
  logoImages :: "candidate list"

text \<open>\<^verbatim>\<open>$(elem).attr('alt') || ''\<close>\<close>

definition elem_alt :: "img_elem \<Rightarrow> string" where
  "elem_alt elem = (case attr_alt elem of None \<Rightarrow> [] | Some a \<Rightarrow> a)"

definition elem_width :: "img_elem \<Rightarrow> int" where
  "elem_width elem = parseIntOr0 (attr_width elem)"

definition elem_height :: "img_elem \<Rightarrow> int" where
  "elem_height elem = parseIntOr0 (attr_height elem)"

definition isLogo :: "img_elem \<Rightarrow> bool" where
  "isLogo elem =
     (str_includes (toLowerCase (elem_alt elem)) ''logo''
      \<or> elem_width elem < 150 \<or> elem_height elem < 150)"

definition imageObj :: "string \<Rightarrow> img_elem \<Rightarrow> candidate" where
  "imageObj src elem =
     (\<lparr> url = Some (if startsWith src ''http'' then src else ''https:'' @ src),
        alt = Some (elem_alt elem),
        width = Some (elem_width elem),
        height = Some (elem_height elem),
        attachmentId = None,
        cand_mimeType = None \<rparr>)"

text \<open>The body of the \<^verbatim>\<open>each\<close> callback: an element with no (or an empty) \<^verbatim>\<open>src\<close> is passed over.\<close>

definition each_img :: "img_elem \<Rightarrow> images \<Rightarrow> images" where
  "each_img elem imgs =
     (case attr_src elem of
        None \<Rightarrow> imgs
      | Some src \<Rightarrow>
          if src = [] then imgs
          else if isLogo elem
          then imgs\<lparr>logoImages := logoImages imgs @ [imageObj src elem]\<rparr>
          else imgs\<lparr>dealImages := dealImages imgs @ [imageObj src elem]\<rparr>)"

definition attachmentObj :: "part \<Rightarrow> candidate" where
  "attachmentObj p =
     \<lparr> url = None, alt = None, width = None, height = None,
       attachmentId = body_attachmentId p, cand_mimeType = Some (mimeType p) \<rparr>"

definition each_attachment :: "part \<Rightarrow> images \<Rightarrow> images" where
  "each_attachment p imgs =
     (if startsWith (mimeType p) ''image/'' \<and> truthy (body_attachmentId p)
      then imgs\<lparr>dealImages := dealImages imgs @ [attachmentObj p]\<rparr>
      else imgs)"

definition data_of :: "part \<Rightarrow> string" where
  "data_of p = (case body_data p of None \<Rightarrow> [] | Some d \<Rightarrow> d)"

definition html_parts :: "part list \<Rightarrow> part list" where
  "html_parts ps = filter (\<lambda>p. mimeType p = ''text/html'' \<and> truthy (body_data p)) ps"

text \<open>
  \<^verbatim>\<open>extractImagesFromEmail(emailData)\<close>. \<open>decode\<close> is
  \<^verbatim>\<open>Buffer.from(data, 'base64').toString('utf-8')\<close> and \<open>img_elems\<close> is the parser:
  the \<^verbatim>\<open>img\<close> elements of an HTML text in document order. With no HTML text the
  function returns before it looks at the attachments.
\<close>

definition extractImagesFromEmail ::
  "(string \<Rightarrow> string) \<Rightarrow> (string \<Rightarrow> img_elem list) \<Rightarrow> email \<Rightarrow> images" where
  "extractImagesFromEmail decode img_elems emailData =
     (let images0 = \<lparr> dealImages = [], logoImages = [] \<rparr>;
          ps = getAllParts (payload emailData) [];
          htmlContent = concat (map (\<lambda>p. decode (data_of p)) (html_parts ps))
      in if htmlContent = [] then images0
         else fold each_attachment ps (fold each_img (img_elems htmlContent) images0))"

text \<open>
  \<^verbatim>\<open>Array.prototype.sort(cmp)\<close>: a stable sort; \<open>a\<close> goes before \<open>b\<close> when
  \<open>cmp a b < 0\<close>, and elements that compare equal keep their order.
\<close>

fun insert_by :: "('a \<Rightarrow> 'a \<Rightarrow> int) \<Rightarrow> 'a \<Rightarrow> 'a list \<Rightarrow> 'a list" where
  "insert_by cmp x [] = [x]"
| "insert_by cmp x (y # ys) = (if cmp x y \<le> 0 then x # y # ys else y # insert_by cmp x ys)"

fun js_sort :: "('a \<Rightarrow> 'a \<Rightarrow> int) \<Rightarrow> 'a list \<Rightarrow> 'a list" where
  "js_sort cmp [] = []"
| "js_sort cmp (x # xs) = insert_by cmp x (js_sort cmp xs)"

text \<open>
  \<^verbatim>\<open>(a.width || 0) * (a.height || 0)\<close>, on integer dimensions (a product that
  leaves the range of a double is not modelled).
\<close>

definition or0 :: "int option \<Rightarrow> int" where
  "or0 v = (case v of None \<Rightarrow> 0 | Some n \<Rightarrow> n)"

definition image_size :: "candidate \<Rightarrow> int" where
  "image_size a = or0 (width a) * or0 (height a)"

definition by_size_desc :: "candidate \<Rightarrow> candidate \<Rightarrow> int" where
  "by_size_desc a b = image_size b - image_size a"

text \<open>What \<^verbatim>\<open>selectBestDealImage\<close> returns: \<^verbatim>\<open>null\<close>, \<^verbatim>\<open>undefined\<close> or a string.\<close>

datatype url_result = Null | Undefined | Url string

definition url_of :: "candidate \<Rightarrow> url_result" where
  "url_of c = (case url c of None \<Rightarrow> Undefined | Some u \<Rightarrow> Url u)"

definition selectBestDealImage :: "images \<Rightarrow> url_result" where
  "selectBestDealImage imgs =
     (if length (dealImages imgs) = 0 then Null
      else url_of (hd (js_sort by_size_desc (dealImages imgs))))"

definition logos :: "(string \<times> string) list" where
  "logos =
     [(''McDonald's'', ''https://upload.wikimedia.org/wikipedia/commons/thumb/3/36/McDonald%27s_Golden_Arches.svg/200px-McDonald%27s_Golden_Arches.svg.png''),
      (''Subway'', ''https://upload.wikimedia.org/wikipedia/commons/thumb/5/5c/Subway_2016_logo.svg/200px-Subway_2016_logo.svg.png''),
      (''Domino's'', ''https://upload.wikimedia.org/wikipedia/commons/thumb/7/74/Dominos_pizza_logo.svg/200px-Dominos_pizza_logo.svg.png''),
      (''Pizza Hut'', ''https://upload.wikimedia.org/wikipedia/en/thumb/d/d2/Pizza_Hut_logo.svg/200px-Pizza_Hut_logo.svg.png''),
      (''Taco Bell'', ''https://upload.wikimedia.org/wikipedia/en/thumb/b/b3/Taco_Bell_2016.svg/200px-Taco_Bell_2016.svg.png''),
      (''Chipotle'', ''https://upload.wikimedia.org/wikipedia/en/thumb/3/3b/Chipotle_Mexican_Grill_logo.svg/200px-Chipotle_Mexican_Grill_logo.svg.png''),
      (''KFC'', ''https://upload.wikimedia.org/wikipedia/en/thumb/b/bf/KFC_logo.svg/200px-KFC_logo.svg.png''),
      (''Wendy's'', ''https://upload.wikimedia.org/wikipedia/en/thumb/5/57/Wendy%27s_full_logo_2013.svg/200px-Wendy%27s_full_logo_2013.svg.png'')]"

text \<open>
  \<^verbatim>\<open>logos[restaurantName] || placeholder\<close>, on the table's own keys (the properties an
  object literal inherits, such as \<^verbatim>\<open>constructor\<close>, are not modelled).
\<close>

definition getDefaultLogoUrl :: "string option \<Rightarrow> url_result" where
  "getDefaultLogoUrl restaurantName =
     (case restaurantName of
        None \<Rightarrow> Url ''https://via.placeholder.com/200x200?text=Logo''
      | Some n \<Rightarrow>
          (case map_of logos n of
             None \<Rightarrow> Url ''https://via.placeholder.com/200x200?text=Logo''
           | Some u \<Rightarrow> Url u))"

definition selectBestLogoImage :: "images \<Rightarrow> string option \<Rightarrow> url_result" where
  "selectBestLogoImage imgs restaurantName =
     (if length (logoImages imgs) = 0 then getDefaultLogoUrl restaurantName
      else url_of (hd (logoImages imgs)))"




definition first_largest :: "candidate list \<Rightarrow> nat \<Rightarrow> bool" where
  "first_largest ds i =
     (i < length ds
      \<and> (\<forall>j < length ds. image_size (ds ! j) \<le> image_size (ds ! i))
      \<and> (\<forall>j < i. image_size (ds ! j) < image_size (ds ! i)))"

definition attachment_only :: "candidate \<Rightarrow> bool" where
  "attachment_only c =
     (attachmentId c \<noteq> None \<and> url c = None \<and> width c = None \<and> height c = None)"

subsection \<open>Deal extraction\<close>

text \<open>
  \<^verbatim>\<open>responseText.match(/\{[\s\S]*\}/)\<close>: the match starts at the first \<^verbatim>\<open>{\<close> and,
  the star being greedy over any character, ends at the last \<^verbatim>\<open>}\<close> after it; with no
  \<^verbatim>\<open>}\<close> after the first \<^verbatim>\<open>{\<close> no later start can match either.
\<close>

definition jsonMatch :: "string \<Rightarrow> string option" where
  "jsonMatch responseText =
     (let fromOpen = dropWhile (\<lambda>c. c \<noteq> CHR ''{'') responseText in
      if fromOpen = [] then None
      else
        (let upToClose = rev (dropWhile (\<lambda>c. c \<noteq> CHR ''}'') (rev (tl fromOpen))) in
         if upToClose = [] then None else Some (CHR ''{'' # upToClose)))"

text \<open>
  \<^verbatim>\<open>parseEmailWithClaude(emailContent, subject, from)\<close>. \<open>create\<close> is the request to
  the extraction model (the fixed prompt is built from the three arguments) and yields
  the text of the first content block, or the error it throws; \<open>JSON_parse\<close> is
  \<^verbatim>\<open>JSON.parse\<close>, \<^const>\<open>None\<close> when it throws. Both errors are caught and give
  \<^verbatim>\<open>null\<close>.
\<close>

definition parseEmailWithClaude ::
  "(string \<Rightarrow> string \<Rightarrow> string \<Rightarrow> error + string) \<Rightarrow> (string \<Rightarrow> 'd option)
   \<Rightarrow> string \<Rightarrow> string \<Rightarrow> string \<Rightarrow> 'd option" where
  "parseEmailWithClaude create JSON_parse emailContent subject sender =
     (case create emailContent subject sender of
        Inl err \<Rightarrow> None
      | Inr responseText \<Rightarrow>
          (case jsonMatch responseText of
             Some m \<Rightarrow> JSON_parse m
           | None \<Rightarrow> None))"

text \<open>A text has a brace span when a \<^verbatim>\<open>{\<close> is followed, anywhere later, by a \<^verbatim>\<open>}\<close>.\<close>

definition has_brace_span :: "string \<Rightarrow> bool" where
  "has_brace_span s = (\<exists>pre mid post. s = pre @ ''{'' @ mid @ ''}'' @ post)"

definition brace_free :: "string \<Rightarrow> bool" where
  "brace_free s = (CHR ''{'' \<notin> set s \<and> CHR ''}'' \<notin> set s)"

text \<open>
  The object the extraction model is asked for (\<^verbatim>\<open>dealInfo\<close>). A field that is
  \<^verbatim>\<open>null\<close> or missing is \<^const>\<open>None\<close>.
\<close>

record dealInfo =
  restaurant :: "string option"
  dealDescription :: "string option"
  originalPrice :: "rat option"
  discountedPrice :: "rat option"
  savings :: "rat option"
  expiryDate :: "string option"
  dealCode :: "string option"
  termsAndConditions :: "string option"
  dealType :: "string option"

subsection \<open>Stored records\<close>

text \<open>
  The rows of the tables \<^verbatim>\<open>users\<close> and \<^verbatim>\<open>deals\<close> of the schema in the source's
  comment; a \<^verbatim>\<open>NULL\<close> column is \<^const>\<open>None\<close>. Keys (\<^verbatim>\<open>UUID\<close>) are numbers, money is
  \<^typ>\<open>rat\<close>, a date is the time of its midnight in milliseconds. The two flags are
  taken as set (the code writes \<^verbatim>\<open>is_active\<close> itself and \<^verbatim>\<open>is_notified\<close> has a
  default).
\<close>

record prefs =
  pref_email :: "bool option"
  expiringSoon :: "bool option"

record user =
  u_id :: nat
  u_email :: string
  gmail_tokens :: "string option"
  notification_preferences :: "prefs option"

record deal_row =
  row_id :: nat
  user_id :: "nat option"
  email_id :: "string option"
  row_restaurant :: "string option"
  deal_description :: "string option"
  original_price :: "rat option"
  discounted_price :: "rat option"
  row_savings :: "rat option"
  expiry_date :: "int option"
  deal_code :: "string option"
  terms_and_conditions :: "string option"
  deal_type :: "string option"
  image_url :: "string option"
  logo_url :: "string option"
  is_active :: bool
  is_notified :: bool

record db =
  users :: "user list"
  deals :: "deal_row list"

subsection \<open>Expiry notifier\<close>

text \<open>
  What the collaborators answer during one sweep: the clock, the \<^verbatim>\<open>error\<close> of the
  users query, the \<^verbatim>\<open>error\<close> of a user's deals query, what \<^verbatim>\<open>sendMail\<close> throws
  for a recipient and a list of deals, and the \<^verbatim>\<open>error\<close> of an update (which the code
  awaits but never inspects). \<open>sendMail_error\<close> stands for the whole of
  \<^verbatim>\<open>sendExpiringDealsNotification\<close>: rendering the deals and sending the mail.
\<close>

record notifier_env =
  now :: int
  users_error :: "error option"
  deals_error :: "user \<Rightarrow> error option"
  sendMail_error :: "string \<Rightarrow> deal_row list \<Rightarrow> error option"
  update_error :: "nat list \<Rightarrow> error option"

text \<open>
  What a sweep did for the user of a loop iteration: a mail to \<^verbatim>\<open>user.email\<close> that
  went out or failed, an update by \<^verbatim>\<open>id\<close> list that was applied or failed.
\<close>

datatype event =
  MailSent user "deal_row list"
| MailFailed user "deal_row list"
| MarkedNotified user "nat list"
| UpdateFailed user "nat list"

fun ev_user :: "event \<Rightarrow> user" where
  "ev_user (MailSent u ds) = u"
| "ev_user (MailFailed u ds) = u"
| "ev_user (MarkedNotified u ids) = u"
| "ev_user (UpdateFailed u ids) = u"


record run =
  deals_now :: "deal_row list"
  events :: "event list"

text \<open>\<^verbatim>\<open>setDate(getDate() + 3)\<close>, in milliseconds (days of 24 hours).\<close>

definition three_days :: int where
  "three_days = 3 * 24 * 60 * 60 * 1000"

text \<open>\<^verbatim>\<open>user.notification_preferences?.expiringSoon\<close> as a condition.\<close>

definition wants_expiring :: "user \<Rightarrow> bool" where
  "wants_expiring u =
     (case notification_preferences u of None \<Rightarrow> False | Some p \<Rightarrow> expiringSoon p = Some True)"

text \<open>
  The deals query: \<^verbatim>\<open>user_id = user.id\<close>, \<^verbatim>\<open>is_active = true\<close>,
  \<^verbatim>\<open>is_notified = false\<close>, \<^verbatim>\<open>expiry_date <= threeDaysFromNow\<close>,
  \<^verbatim>\<open>expiry_date IS NOT NULL\<close> (a comparison with \<^verbatim>\<open>NULL\<close> selects nothing).
\<close>

definition expiring :: "int \<Rightarrow> user \<Rightarrow> deal_row list \<Rightarrow> deal_row list" where
  "expiring threeDaysFromNow u tbl =
     filter (\<lambda>d. user_id d = Some (u_id u) \<and> is_active d = True \<and> is_notified d = False
                \<and> (case expiry_date d of None \<Rightarrow> False | Some e \<Rightarrow> e \<le> threeDaysFromNow)
                \<and> expiry_date d \<noteq> None) tbl"

text \<open>\<^verbatim>\<open>update({ is_notified: true }).in('id', dealIds)\<close>\<close>

definition mark_notified :: "nat list \<Rightarrow> deal_row list \<Rightarrow> deal_row list" where
  "mark_notified dealIds tbl =
     map (\<lambda>d. if row_id d \<in> set dealIds then d\<lparr>is_notified := True\<rparr> else d) tbl"

text \<open>
  One iteration of the loop over the users. The second component is the error the
  iteration throws, if any: \<^verbatim>\<open>dealsError\<close>, or what sending the mail threw. A failed
  update throws nothing.
\<close>

definition notify_user :: "notifier_env \<Rightarrow> int \<Rightarrow> user \<Rightarrow> run \<Rightarrow> run \<times> error option" where
  "notify_user env threeDaysFromNow u s =
     (if \<not> wants_expiring u then (s, None)
      else
        (case deals_error env u of
           Some dealsError \<Rightarrow> (s, Some dealsError)
         | None \<Rightarrow>
             (let expiringDeals = expiring threeDaysFromNow u (deals_now s) in
              if length expiringDeals > 0 then
                (case sendMail_error env (u_email u) expiringDeals of
                   Some err \<Rightarrow> (s\<lparr>events := events s @ [MailFailed u expiringDeals]\<rparr>, Some err)
                 | None \<Rightarrow>
                     (let dealIds = map row_id expiringDeals in
                      (case update_error env dealIds of
                         Some err \<Rightarrow>
                           (s\<lparr>events := events s
                               @ [MailSent u expiringDeals, UpdateFailed u dealIds]\<rparr>, None)
                       | None \<Rightarrow>
                           (s\<lparr>deals_now := mark_notified dealIds (deals_now s),
                              events := events s
                               @ [MailSent u expiringDeals, MarkedNotified u dealIds]\<rparr>, None))))
              else (s, None))))"

text \<open>The \<^verbatim>\<open>for\<close> loop inside the \<^verbatim>\<open>try\<close>: a thrown error leaves the loop.\<close>

fun notify_loop :: "notifier_env \<Rightarrow> int \<Rightarrow> user list \<Rightarrow> run \<Rightarrow> run \<times> error option" where
  "notify_loop env threeDaysFromNow [] s = (s, None)"
| "notify_loop env threeDaysFromNow (u # us) s =
     (case notify_user env threeDaysFromNow u s of
        (s', Some err) \<Rightarrow> (s', Some err)
      | (s', None) \<Rightarrow> notify_loop env threeDaysFromNow us s')"

text \<open>
  \<^verbatim>\<open>checkAndNotifyExpiringDeals()\<close>: the table and the events it leaves, and the error
  its \<^verbatim>\<open>catch\<close> logged, if any. The function itself always returns normally.
\<close>

definition checkAndNotifyExpiringDeals :: "notifier_env \<Rightarrow> db \<Rightarrow> run \<times> error option" where
  "checkAndNotifyExpiringDeals env d =
     (case users_error env of
        Some usersError \<Rightarrow> (\<lparr>deals_now = deals d, events = []\<rparr>, Some usersError)
      | None \<Rightarrow>
          notify_loop env (now env + three_days) (users d) \<lparr>deals_now = deals d, events = []\<rparr>)"


text \<open>A user's rows of a table, and a user's events of a sweep.\<close>

definition rows_of :: "user \<Rightarrow> deal_row list \<Rightarrow> deal_row list" where
  "rows_of u tbl = filter (\<lambda>d. user_id d = Some (u_id u)) tbl"

definition events_of :: "user \<Rightarrow> event list \<Rightarrow> event list" where
  "events_of u evs = filter (\<lambda>ev. ev_user ev = u) evs"

subsection \<open>Scanning the mailbox\<close>

text \<open>
  What the collaborators answer during one scan: what the user lookup throws for an
  address (an error other than "no row"), the messages fetched with a user's tokens,
  base64 decoding, the extraction model, \<^verbatim>\<open>JSON.parse\<close>, the HTML parser, what the
  transport of an insert reports, and how the store reads a date text.
\<close>

record scan_env =
  lookup_error :: "string \<Rightarrow> error option"
  fetch_emails :: "string \<Rightarrow> error + email list"
  decode_base64 :: "string \<Rightarrow> string"
  messages_create :: "string \<Rightarrow> string \<Rightarrow> string \<Rightarrow> error + string"
  json_parse :: "string \<Rightarrow> dealInfo option"
  html_images :: "string \<Rightarrow> img_elem list"
  insert_error :: "deal_row \<Rightarrow> error option"
  date_of :: "string \<Rightarrow> int option"

text \<open>The argument of \<^verbatim>\<open>saveDeal\<close>: the draft's fields, the message id, the two images.\<close>

record dealData = dealInfo +
  emailId :: string
  imageUrl :: url_result
  logoUrl :: url_result

text \<open>The store: the \<^verbatim>\<open>deals\<close> table and the rows it was asked to insert, in order.\<close>

record store =
  table :: "deal_row list"
  insert_calls :: "deal_row list"

record scan_state =
  st_store :: store
  processedDeals :: "deal_row list"

datatype response = Json200 "deal_row list" | Json401 string | Json500 string

definition message :: "error \<Rightarrow> string" where
  "message e = (case e of Error m \<Rightarrow> m)"

text \<open>
  \<^verbatim>\<open>getUserByEmail(email)\<close>: \<^verbatim>\<open>.single()\<close> answers the one matching row; without
  exactly one row its error has the code \<^verbatim>\<open>PGRST116\<close>, which is not thrown, and the
  data is \<^verbatim>\<open>null\<close>.
\<close>

definition getUserByEmail :: "scan_env \<Rightarrow> db \<Rightarrow> string \<Rightarrow> error + user option" where
  "getUserByEmail env d email =
     (case lookup_error env email of
        Some err \<Rightarrow> Inl err
      | None \<Rightarrow>
          (case filter (\<lambda>u. u_email u = email) (users d) of
             [u] \<Rightarrow> Inr (Some u)
           | _ \<Rightarrow> Inr None))"

text \<open>A column value for an image: \<^verbatim>\<open>null\<close> and \<^verbatim>\<open>undefined\<close> are stored as \<^verbatim>\<open>NULL\<close>.\<close>

definition url_column :: "url_result \<Rightarrow> string option" where
  "url_column r = (case r of Url u \<Rightarrow> Some u | _ \<Rightarrow> None)"

text \<open>A key no stored row has (\<^verbatim>\<open>uuid_generate_v4()\<close>).\<close>

definition fresh_id :: "deal_row list \<Rightarrow> nat" where
  "fresh_id tbl = Suc (fold max (map row_id tbl) 0)"

text \<open>The object \<^verbatim>\<open>saveDeal\<close> hands to \<^verbatim>\<open>insert\<close>, as the row it asks for.\<close>

definition new_row :: "scan_env \<Rightarrow> nat \<Rightarrow> nat \<Rightarrow> dealData \<Rightarrow> deal_row" where
  "new_row env key userId dealData =
     \<lparr> row_id = key,
       user_id = Some userId,
       email_id = Some (emailId dealData),
       row_restaurant = restaurant dealData,
       deal_description = dealDescription dealData,
       original_price = originalPrice dealData,
       discounted_price = discountedPrice dealData,
       row_savings = savings dealData,
       expiry_date = (case expiryDate dealData of None \<Rightarrow> None | Some d \<Rightarrow> date_of env d),
       deal_code = dealCode dealData,
       terms_and_conditions = termsAndConditions dealData,
       deal_type = dealType dealData,
       image_url = url_column (imageUrl dealData),
       logo_url = url_column (logoUrl dealData),
       is_active = True,
       is_notified = False \<rparr>"

text \<open>
  \<^verbatim>\<open>saveDeal(userId, dealData)\<close>: the insert, and \<^verbatim>\<open>if (error) throw error\<close>. The
  store answers by the schema: \<^verbatim>\<open>restaurant\<close>, \<^verbatim>\<open>deal_description\<close> and \<^verbatim>\<open>savings\<close>
  are \<^verbatim>\<open>NOT NULL\<close>, and \<^verbatim>\<open>expiry_date\<close> is a \<^verbatim>\<open>DATE\<close>, so a text it cannot read as a
  date is an error too. The left result is the error thrown.
\<close>

definition saveDeal ::
  "scan_env \<Rightarrow> nat \<Rightarrow> dealData \<Rightarrow> store \<Rightarrow> (error + deal_row) \<times> store" where
  "saveDeal env userId dealData st =
     (let row = new_row env (fresh_id (table st)) userId dealData;
          asked = st\<lparr>insert_calls := insert_calls st @ [row]\<rparr>
      in case insert_error env row of
           Some err \<Rightarrow> (Inl err, asked)
         | None \<Rightarrow>
             if row_restaurant row = None \<or> deal_description row = None \<or> row_savings row = None
             then (Inl (Error ''null value violates not-null constraint''), asked)
             else if expiryDate dealData \<noteq> None \<and> expiry_date row = None
             then (Inl (Error ''invalid input syntax for type date''), asked)
             else (Inr row, asked\<lparr>table := table st @ [row]\<rparr>))"

definition plain_parts :: "part list \<Rightarrow> part list" where
  "plain_parts ps = filter (\<lambda>p. mimeType p = ''text/plain'' \<and> truthy (body_data p)) ps"

text \<open>\<^verbatim>\<open>headers.find(h => h.name === name)?.value || ''\<close>\<close>

definition header_value :: "string \<Rightarrow> (string \<times> string) list \<Rightarrow> string" where
  "header_value name hs = (case find (\<lambda>h. fst h = name) hs of None \<Rightarrow> [] | Some h \<Rightarrow> snd h)"

text \<open>
  The first half of the loop body: the plain text of the message, and the draft the
  extractor makes of it. \<^const>\<open>None\<close> is either of the two \<^verbatim>\<open>continue\<close> statements.
\<close>

definition extract_draft :: "scan_env \<Rightarrow> email \<Rightarrow> dealInfo option" where
  "extract_draft env email =
     (let ps = getAllParts (payload email) [];
          emailContent = concat (map (\<lambda>p. decode_base64 env (data_of p)) (plain_parts ps))
      in if emailContent = [] then None
         else
           (let hs = headers (payload email);
                subject = header_value ''Subject'' hs;
                sender = header_value ''From'' hs
            in parseEmailWithClaude (messages_create env) (json_parse env)
                 emailContent subject sender))"

text \<open>The second half: the images, and the object handed to \<^verbatim>\<open>saveDeal\<close>.\<close>

definition assemble :: "scan_env \<Rightarrow> email \<Rightarrow> dealInfo \<Rightarrow> dealData" where
  "assemble env email info =
     (let imgs = extractImagesFromEmail (decode_base64 env) (html_images env) email
      in \<lparr> restaurant = restaurant info,
           dealDescription = dealDescription info,
           originalPrice = originalPrice info,
           discountedPrice = discountedPrice info,
           savings = savings info,
           expiryDate = expiryDate info,
           dealCode = dealCode info,
           termsAndConditions = termsAndConditions info,
           dealType = dealType info,
           emailId = msg_id email,
           imageUrl = selectBestDealImage imgs,
           logoUrl = selectBestLogoImage imgs (restaurant info) \<rparr>)"

text \<open>
  One iteration of the loop over the messages, with its own \<^verbatim>\<open>try\<close>: an error thrown
  by \<^verbatim>\<open>saveDeal\<close> is caught and the loop goes on.
\<close>

definition process_email :: "scan_env \<Rightarrow> user \<Rightarrow> email \<Rightarrow> scan_state \<Rightarrow> scan_state" where
  "process_email env u email st =
     (case extract_draft env email of
        None \<Rightarrow> st
      | Some info \<Rightarrow>
          (case saveDeal env (u_id u) (assemble env email info) (st_store st) of
             (Inl err, store') \<Rightarrow> st\<lparr>st_store := store'\<rparr>
           | (Inr savedDeal, store') \<Rightarrow>
               st\<lparr>st_store := store', processedDeals := processedDeals st @ [savedDeal]\<rparr>))"

definition process_emails :: "scan_env \<Rightarrow> user \<Rightarrow> email list \<Rightarrow> scan_state \<Rightarrow> scan_state" where
  "process_emails env u emails st = fold (process_email env u) emails st"

text \<open>
  The handler of \<^verbatim>\<open>POST /api/scan-deals\<close>: the response, and the store and result list
  it leaves.
\<close>

definition scan_start :: "db \<Rightarrow> scan_state" where
  "scan_start d = \<lparr> st_store = \<lparr> table = deals d, insert_calls = [] \<rparr>, processedDeals = [] \<rparr>"

definition scan_deals :: "scan_env \<Rightarrow> db \<Rightarrow> string \<Rightarrow> response \<times> scan_state" where
  "scan_deals env d userEmail =
     (let st0 = scan_start d
      in case getUserByEmail env d userEmail of
           Inl err \<Rightarrow> (Json500 (message err), st0)
         | Inr None \<Rightarrow> (Json401 ''User not authenticated'', st0)
         | Inr (Some u) \<Rightarrow>
             (case gmail_tokens u of
                None \<Rightarrow> (Json401 ''User not authenticated'', st0)
              | Some tokens \<Rightarrow>
                  (case fetch_emails env tokens of
                     Inl err \<Rightarrow> (Json500 (message err), st0)
                   | Inr emails \<Rightarrow>
                       (let st = process_emails env u emails st0
                        in (Json200 (processedDeals st), st)))))"


text \<open>The drafts the extractor makes of a batch, and two states with the same stored data.\<close>

definition drafts :: "scan_env \<Rightarrow> email list \<Rightarrow> dealInfo list" where
  "drafts env emails = List.map_filter (extract_draft env) emails"


subsection \<open>Sample data\<close>

definition leaf_plain :: part where
  "leaf_plain = Part ''text/plain'' (Some ''QlVZIE9ORQ=='') None [] None"

definition leaf_html :: part where
  "leaf_html = Part ''text/html'' (Some ''PGltZz4='') None [] None"

definition leaf_png :: part where
  "leaf_png = Part ''image/png'' None (Some ''att-1'') [] None"

definition sample_tree :: part where
  "sample_tree =
     Part ''multipart/related'' None None [(''Subject'', ''Two for one''), (''From'', ''kfc@example.com'')]
       (Some [Part ''multipart/alternative'' None None [] (Some [leaf_plain, leaf_html]), leaf_png])"


definition sample_mail :: email where
  "sample_mail = \<lparr> msg_id = ''m-1'', payload = sample_tree \<rparr>"


definition decode_sample :: "string \<Rightarrow> string" where
  "decode_sample d = (if d = ''PGltZz4='' then ''<img>'' else if d = ''QlVZIE9ORQ=='' then ''BUY ONE'' else [])"



definition elem_logo :: img_elem where
  "elem_logo = \<lparr> attr_src = Some ''https://cdn.example.com/l.png'', attr_alt = Some ''Our LOGO'',
     attr_width = Some ''600'', attr_height = Some ''400'' \<rparr>"




definition parser_logo :: "string \<Rightarrow> img_elem list" where
  "parser_logo html = [elem_logo]"





definition kfc_draft :: dealInfo where
  "kfc_draft = \<lparr> restaurant = Some ''KFC'', dealDescription = Some ''Two for one'',
     originalPrice = Some 10, discountedPrice = Some 5, savings = Some 5,
     expiryDate = Some ''2024-02-20'', dealCode = None, termsAndConditions = None,
     dealType = Some ''BOGO'' \<rparr>"

definition parse_sample :: "string \<Rightarrow> dealInfo option" where
  "parse_sample m = (if m = ''{kfc}'' then Some kfc_draft else None)"

definition reply :: "string \<Rightarrow> string \<Rightarrow> string \<Rightarrow> string \<Rightarrow> error + string" where
  "reply text emailContent subject sender = Inr text"

definition alice :: user where
  "alice = \<lparr> u_id = 1, u_email = ''alice@example.com'', gmail_tokens = Some ''tok-a'',
     notification_preferences = Some \<lparr> pref_email = Some True, expiringSoon = Some True \<rparr> \<rparr>"

definition bob :: user where
  "bob = \<lparr> u_id = 2, u_email = ''bob@example.com'', gmail_tokens = None,
     notification_preferences = Some \<lparr> pref_email = Some True, expiringSoon = Some True \<rparr> \<rparr>"

definition carol :: user where
  "carol = \<lparr> u_id = 3, u_email = ''carol@example.com'', gmail_tokens = None,
     notification_preferences = Some \<lparr> pref_email = Some True, expiringSoon = Some False \<rparr> \<rparr>"

definition day :: int where
  "day = 24 * 60 * 60 * 1000"

definition stored_deal :: "nat \<Rightarrow> nat \<Rightarrow> int \<Rightarrow> bool \<Rightarrow> deal_row" where
  "stored_deal key owner expiry notified =
     \<lparr> row_id = key, user_id = Some owner, email_id = Some ''m-0'',
       row_restaurant = Some ''KFC'', deal_description = Some ''Two for one'',
       original_price = None, discounted_price = None, row_savings = Some 5,
       expiry_date = Some expiry, deal_code = None, terms_and_conditions = None,
       deal_type = Some ''BOGO'', image_url = None, logo_url = None,
       is_active = True, is_notified = notified \<rparr>"

definition deal_A :: deal_row where
  "deal_A = stored_deal 10 1 (2 * day) False"

definition deal_B :: deal_row where
  "deal_B = stored_deal 11 1 (2 * day) True"

definition deal_C :: deal_row where
  "deal_C = stored_deal 12 1 (10 * day) False"

definition deal_D :: deal_row where
  "deal_D = stored_deal 13 2 (1 * day) False"

definition deal_E :: deal_row where
  "deal_E = stored_deal 14 3 (1 * day) False"

definition sample_db :: db where
  "sample_db = \<lparr> users = [alice, bob, carol], deals = [deal_A, deal_B, deal_C, deal_D, deal_E] \<rparr>"


definition alice_bounces :: notifier_env where
  "alice_bounces = \<lparr> now = 0, users_error = None, deals_error = (\<lambda>u. None),
     sendMail_error = (\<lambda>to ds. if to = ''alice@example.com'' then Some (Error ''550 mailbox unavailable'') else None),
     update_error = (\<lambda>ids. None) \<rparr>"

definition bob_first :: db where
  "bob_first = \<lparr> users = [bob, alice, carol], deals = [deal_A, deal_B, deal_C, deal_D, deal_E] \<rparr>"

definition anon_draft :: dealInfo where
  "anon_draft = \<lparr> restaurant = None, dealDescription = Some ''Free fries'',
     originalPrice = None, discountedPrice = None, savings = Some 2,
     expiryDate = None, dealCode = None, termsAndConditions = None,
     dealType = Some ''FREE_ITEM'' \<rparr>"

definition mail_of :: "string \<Rightarrow> string \<Rightarrow> email" where
  "mail_of ident data = \<lparr> msg_id = ident,
     payload = Part ''text/plain'' (Some data) None [(''Subject'', ''Deal''), (''From'', ''promo@example.com'')] None \<rparr>"

definition kfc_mail :: email where
  "kfc_mail = mail_of ''m-10'' ''S0ZD''"

definition anon_mail :: email where
  "anon_mail = mail_of ''m-11'' ''QU5PTg==''"



definition scan_sample :: "email list \<Rightarrow> scan_env" where
  "scan_sample emails =
     \<lparr> lookup_error = (\<lambda>a. None),
       fetch_emails = (\<lambda>tokens. Inr emails),
       decode_base64 = (\<lambda>d. if d = ''S0ZD'' then ''KFC'' else if d = ''QU5PTg=='' then ''ANON''
          else if d = ''SEVMTE8='' then ''HELLO'' else []),
       messages_create = (\<lambda>c s f. if c = ''KFC'' then Inr ''Found it: {kfc}''
          else if c = ''ANON'' then Inr ''{anon}'' else Inr ''There is no deal here.''),
       json_parse = (\<lambda>m. if m = ''{kfc}'' then Some kfc_draft
          else if m = ''{anon}'' then Some anon_draft else None),
       html_images = (\<lambda>h. []),
       insert_error = (\<lambda>r. None),
       date_of = (\<lambda>d. if d = ''2024-02-20'' then Some 1708387200000 else None) \<rparr>"



section \<open>Part flattener\<close>







section \<open>Image classification\<close>










section \<open>Best deal image\<close>

lemma insert_by_hd:
  "hd (insert_by cmp x ys) = (if ys = [] \<or> cmp x (hd ys) \<le> 0 then x else hd ys)"
  by (cases ys) simp_all

lemma insert_by_not_Nil: "insert_by cmp x ys \<noteq> []"
  by (cases ys) simp_all

lemma js_sort_Nil_iff: "js_sort cmp xs = [] \<longleftrightarrow> xs = []"
  by (cases xs) (simp_all add: insert_by_not_Nil)

lemma mset_insert_by: "mset (insert_by cmp x ys) = add_mset x (mset ys)"
  by (induction ys) simp_all

lemma mset_js_sort: "mset (js_sort cmp xs) = mset xs"
  by (induction xs) (simp_all add: mset_insert_by)

lemma hd_js_sort_first_largest:
  "ds \<noteq> [] \<Longrightarrow> \<exists>i. first_largest ds i \<and> hd (js_sort by_size_desc ds) = ds ! i"
proof (induction ds)
  case Nil
  then show ?case by simp
next
  case (Cons x xs)
  show ?case
  proof (cases "xs = []")
    case True
    then have "first_largest (x # xs) 0 \<and> hd (js_sort by_size_desc (x # xs)) = (x # xs) ! 0"
      by (simp add: first_largest_def)
    then show ?thesis by blast
  next
    case False
    with Cons.IH obtain i where i: "first_largest xs i"
      and h: "hd (js_sort by_size_desc xs) = xs ! i" by blast
    have ne: "js_sort by_size_desc xs \<noteq> []"
      using False by (simp add: js_sort_Nil_iff)
    show ?thesis
    proof (cases "image_size (xs ! i) \<le> image_size x")
      case True
      have "hd (js_sort by_size_desc (x # xs)) = x"
        using True ne h by (simp add: insert_by_hd by_size_desc_def)
      moreover have "first_largest (x # xs) 0"
        unfolding first_largest_def
      proof (intro conjI allI impI)
        fix j assume "j < length (x # xs)"
        then show "image_size ((x # xs) ! j) \<le> image_size ((x # xs) ! 0)"
          using i True by (cases j) (auto simp: first_largest_def intro: order_trans)
      qed simp_all
      ultimately have "first_largest (x # xs) 0 \<and> hd (js_sort by_size_desc (x # xs)) = (x # xs) ! 0"
        by simp
      then show ?thesis by blast
    next
      case gt: False
      have "hd (js_sort by_size_desc (x # xs)) = xs ! i"
        using gt ne h by (simp add: insert_by_hd by_size_desc_def)
      moreover have "first_largest (x # xs) (Suc i)"
        unfolding first_largest_def
      proof (intro conjI allI impI)
        show "Suc i < length (x # xs)" using i by (simp add: first_largest_def)
      next
        fix j assume "j < length (x # xs)"
        then show "image_size ((x # xs) ! j) \<le> image_size ((x # xs) ! Suc i)"
          using i gt by (cases j) (auto simp: first_largest_def)
      next
        fix j assume "j < Suc i"
        then show "image_size ((x # xs) ! j) < image_size ((x # xs) ! Suc i)"
          using i gt by (cases j) (auto simp: first_largest_def)
      qed
      ultimately have "first_largest (x # xs) (Suc i) \<and> hd (js_sort by_size_desc (x # xs)) = (x # xs) ! Suc i"
        by simp
      then show ?thesis by blast
    qed
  qed
qed


lemma first_largest_mem: "first_largest ds i \<Longrightarrow> ds ! i \<in> set ds"
  by (simp add: first_largest_def)


lemma selectBestDealImage_index:
  assumes "dealImages imgs \<noteq> []"
  shows "\<exists>i. first_largest (dealImages imgs) i
    \<and> hd (js_sort by_size_desc (dealImages imgs)) = dealImages imgs ! i
    \<and> selectBestDealImage imgs = url_of (dealImages imgs ! i)"
proof -
  from hd_js_sort_first_largest [OF assms] obtain i
    where "first_largest (dealImages imgs) i"
      and "hd (js_sort by_size_desc (dealImages imgs)) = dealImages imgs ! i" by blast
  moreover from this assms have "selectBestDealImage imgs = url_of (dealImages imgs ! i)"
    by (simp add: selectBestDealImage_def)
  ultimately show ?thesis by blast
qed



text \<open>
  C10. When the candidate list is non-empty and holds only inline-attachment entries
  (an \<^verbatim>\<open>attachmentId\<close>, and no \<^verbatim>\<open>url\<close>, \<^verbatim>\<open>width\<close> or \<^verbatim>\<open>height\<close>), selection returns
  \<^verbatim>\<open>undefined\<close>: neither a URL, nor the attachment reference, nor \<^verbatim>\<open>null\<close>.
\<close>

theorem selectBestDealImage_attachment_only:
  assumes "dealImages imgs \<noteq> []"
    and "\<forall>c \<in> set (dealImages imgs). attachment_only c"
  shows "selectBestDealImage imgs = Undefined"
proof -
  from selectBestDealImage_index [OF assms(1)] obtain i
    where i: "first_largest (dealImages imgs) i"
      and s: "selectBestDealImage imgs = url_of (dealImages imgs ! i)" by blast
  from first_largest_mem [OF i] assms(2) have "url (dealImages imgs ! i) = None"
    by (simp add: attachment_only_def)
  with s show ?thesis by (simp add: url_of_def)
qed

theorem selectBestDealImage_attachment_only_witness:
  "dealImages (extractImagesFromEmail decode_sample parser_logo sample_mail) = [attachmentObj leaf_png]
   \<and> attachment_only (attachmentObj leaf_png)
   \<and> selectBestDealImage (extractImagesFromEmail decode_sample parser_logo sample_mail) = Undefined"
proof -
  have d: "dealImages (extractImagesFromEmail decode_sample parser_logo sample_mail)
      = [attachmentObj leaf_png]"
    by code_simp
  have a: "attachment_only (attachmentObj leaf_png)"
    by (simp add: attachment_only_def attachmentObj_def leaf_png_def)
  from d a selectBestDealImage_attachment_only
    [of "extractImagesFromEmail decode_sample parser_logo sample_mail"]
  show ?thesis by simp
qed

section \<open>Deal extraction from the model's reply\<close>

lemma jsonMatch_embedded:
  assumes "CHR ''{'' \<notin> set pre" "CHR ''}'' \<notin> set post"
  shows "jsonMatch (pre @ ''{'' @ mid @ ''}'' @ post) = Some (''{'' @ mid @ ''}'')"
proof -
  have a: "dropWhile (\<lambda>c. c \<noteq> CHR ''{'') (pre @ ''{'' @ mid @ ''}'' @ post)
      = ''{'' @ mid @ ''}'' @ post"
    using assms(1) by (auto simp: dropWhile_append3)
  have "dropWhile (\<lambda>c. c \<noteq> CHR ''}'') (rev (mid @ ''}'' @ post)) = ''}'' @ rev mid"
    using assms(2) by (auto simp: dropWhile_append3)
  then have b: "rev (dropWhile (\<lambda>c. c \<noteq> CHR ''}'') (rev (mid @ ''}'' @ post))) = mid @ ''}''"
    by simp
  show ?thesis
    unfolding jsonMatch_def Let_def a using b by simp
qed

lemma jsonMatch_None:
  assumes "\<not> has_brace_span s"
  shows "jsonMatch s = None"
proof (rule ccontr)
  assume "jsonMatch s \<noteq> None"
  then have o: "dropWhile (\<lambda>c. c \<noteq> CHR ''{'') s \<noteq> []"
    and c: "dropWhile (\<lambda>c. c \<noteq> CHR ''}'') (rev (tl (dropWhile (\<lambda>c. c \<noteq> CHR ''{'') s))) \<noteq> []"
    by (auto simp: jsonMatch_def Let_def split: if_splits)
  define t where "t = dropWhile (\<lambda>c. c \<noteq> CHR ''{'') s"
  have s: "s = takeWhile (\<lambda>c. c \<noteq> CHR ''{'') s @ t"
    by (simp add: t_def)
  have tne: "t \<noteq> []" using o unfolding t_def .
  have "hd t = CHR ''{''"
    using tne hd_dropWhile [of "\<lambda>c. c \<noteq> CHR ''{''" s] unfolding t_def by blast
  with tne have t: "t = CHR ''{'' # tl t" by (cases t) simp_all
  from c have "\<exists>x \<in> set (rev (tl t)). \<not> x \<noteq> CHR ''}''"
    unfolding t_def by (simp add: dropWhile_eq_Nil_conv)
  then have "CHR ''}'' \<in> set (tl t)" by simp
  then obtain mid post where m: "tl t = mid @ CHR ''}'' # post"
    by (auto simp: in_set_conv_decomp)
  have "s = takeWhile (\<lambda>c. c \<noteq> CHR ''{'') s @ ''{'' @ mid @ ''}'' @ post"
    using s t m by (metis append_Cons append_Nil)
  then have "has_brace_span s" unfolding has_brace_span_def by blast
  with assms show False by simp
qed

text \<open>
  C4. When the reply is one brace-delimited object between two stretches of prose
  without braces, the extractor returns what \<^verbatim>\<open>JSON.parse\<close> makes of that object
  alone. When the reply has no \<^verbatim>\<open>{\<close> followed by a \<^verbatim>\<open>}\<close>, or when the matched span
  does not parse, it returns \<^verbatim>\<open>null\<close>; the function has no other outcome, so it never
  throws.
\<close>

theorem parseEmailWithClaude_reply:
  "(create emailContent subject sender = Inr (pre @ ''{'' @ mid @ ''}'' @ post)
      \<and> brace_free pre \<and> brace_free post \<longrightarrow>
      parseEmailWithClaude create JSON_parse emailContent subject sender
        = JSON_parse (''{'' @ mid @ ''}''))
   \<and> (create emailContent subject sender = Inr response \<and> \<not> has_brace_span response \<longrightarrow>
      parseEmailWithClaude create JSON_parse emailContent subject sender = None)
   \<and> (create emailContent subject sender = Inr response \<and> jsonMatch response = Some m
      \<and> JSON_parse m = None \<longrightarrow>
      parseEmailWithClaude create JSON_parse emailContent subject sender = None)"
proof (intro conjI impI)
  assume a: "create emailContent subject sender = Inr (pre @ ''{'' @ mid @ ''}'' @ post)
      \<and> brace_free pre \<and> brace_free post"
  then have "jsonMatch (pre @ ''{'' @ mid @ ''}'' @ post) = Some (''{'' @ mid @ ''}'')"
    by (intro jsonMatch_embedded) (simp_all add: brace_free_def)
  with a show "parseEmailWithClaude create JSON_parse emailContent subject sender
      = JSON_parse (''{'' @ mid @ ''}'')"
    by (simp add: parseEmailWithClaude_def)
next
  assume a: "create emailContent subject sender = Inr response \<and> \<not> has_brace_span response"
  then have "jsonMatch response = None" by (simp add: jsonMatch_None)
  with a show "parseEmailWithClaude create JSON_parse emailContent subject sender = None"
    by (simp add: parseEmailWithClaude_def)
next
  assume "create emailContent subject sender = Inr response \<and> jsonMatch response = Some m
      \<and> JSON_parse m = None"
  then show "parseEmailWithClaude create JSON_parse emailContent subject sender = None"
    by (simp add: parseEmailWithClaude_def)
qed

theorem parseEmailWithClaude_reply_witness:
  "parseEmailWithClaude (reply ''Here is the deal: {kfc} Enjoy!'') parse_sample ''BUY ONE'' ''Deal'' ''kfc''
     = Some kfc_draft
   \<and> parseEmailWithClaude (reply ''I found no deal.'') parse_sample ''BUY ONE'' ''Deal'' ''kfc'' = None
   \<and> parseEmailWithClaude (reply ''{restaurant: KFC'') parse_sample ''BUY ONE'' ''Deal'' ''kfc'' = None
   \<and> parseEmailWithClaude (reply ''See {not json} here'') parse_sample ''BUY ONE'' ''Deal'' ''kfc'' = None"
proof -
  have p: "''Here is the deal: {kfc} Enjoy!'' = ''Here is the deal: '' @ ''{'' @ ''kfc'' @ ''}'' @ '' Enjoy!''"
    by simp
  have "parseEmailWithClaude (reply ''Here is the deal: {kfc} Enjoy!'') parse_sample ''BUY ONE'' ''Deal'' ''kfc''
      = parse_sample (''{'' @ ''kfc'' @ ''}'')"
    using parseEmailWithClaude_reply
      [where create = "reply ''Here is the deal: {kfc} Enjoy!''" and emailContent = "''BUY ONE''"
         and subject = "''Deal''" and sender = "''kfc''" and pre = "''Here is the deal: ''"
         and mid = "''kfc''" and post = "'' Enjoy!''" and JSON_parse = parse_sample]
    by (simp add: reply_def brace_free_def)
  then have one: "parseEmailWithClaude (reply ''Here is the deal: {kfc} Enjoy!'') parse_sample
      ''BUY ONE'' ''Deal'' ''kfc'' = Some kfc_draft"
    by (simp add: parse_sample_def)
  have n1: "\<not> has_brace_span ''I found no deal.''"
    unfolding has_brace_span_def
  proof
    assume "\<exists>pre mid post. ''I found no deal.'' = pre @ ''{'' @ mid @ ''}'' @ post"
    then obtain pre mid post where "''I found no deal.'' = pre @ ''{'' @ mid @ ''}'' @ post"
      by blast
    then have "CHR ''{'' \<in> set ''I found no deal.''" by (metis append_Cons in_set_conv_decomp)
    then show False by simp
  qed
  have n2: "\<not> has_brace_span ''{restaurant: KFC''"
    unfolding has_brace_span_def
  proof
    assume "\<exists>pre mid post. ''{restaurant: KFC'' = pre @ ''{'' @ mid @ ''}'' @ post"
    then obtain pre mid post where e: "''{restaurant: KFC'' = pre @ ''{'' @ mid @ ''}'' @ post"
      by blast
    have "CHR ''}'' \<in> set (pre @ ''{'' @ mid @ ''}'' @ post)" by simp
    with e have "CHR ''}'' \<in> set ''{restaurant: KFC''" by simp
    then show False by simp
  qed
  have two: "parseEmailWithClaude (reply ''I found no deal.'') parse_sample ''BUY ONE'' ''Deal'' ''kfc'' = None"
    using parseEmailWithClaude_reply
      [where create = "reply ''I found no deal.''" and emailContent = "''BUY ONE''"
         and subject = "''Deal''" and sender = "''kfc''" and response = "''I found no deal.''"
         and JSON_parse = parse_sample]
      n1 by (simp add: reply_def)
  have three: "parseEmailWithClaude (reply ''{restaurant: KFC'') parse_sample ''BUY ONE'' ''Deal'' ''kfc'' = None"
    using parseEmailWithClaude_reply
      [where create = "reply ''{restaurant: KFC''" and emailContent = "''BUY ONE''"
         and subject = "''Deal''" and sender = "''kfc''" and response = "''{restaurant: KFC''"
         and JSON_parse = parse_sample]
      n2 by (simp add: reply_def)
  have m: "jsonMatch ''See {not json} here'' = Some ''{not json}''" by code_simp
  have four: "parseEmailWithClaude (reply ''See {not json} here'') parse_sample ''BUY ONE'' ''Deal'' ''kfc'' = None"
    using parseEmailWithClaude_reply
      [where create = "reply ''See {not json} here''" and emailContent = "''BUY ONE''"
         and subject = "''Deal''" and sender = "''kfc''" and response = "''See {not json} here''"
         and m = "''{not json}''" and JSON_parse = parse_sample]
      m by (simp add: reply_def parse_sample_def)
  from one two three four show ?thesis by simp
qed

section \<open>Expiry notifier\<close>

lemma mark_notified_ids: "map row_id (mark_notified ids tbl) = map row_id tbl"
  by (simp add: mark_notified_def)

lemma rows_of_mark_notified:
  "rows_of u (mark_notified ids tbl) = mark_notified ids (rows_of u tbl)"
  by (induction tbl) (simp_all add: rows_of_def mark_notified_def)


lemma expiring_subset: "set (expiring t u tbl) \<subseteq> set (rows_of u tbl)"
  by (auto simp: expiring_def rows_of_def)

lemma rows_of_subset: "set (rows_of u tbl) \<subseteq> set tbl"
  by (auto simp: rows_of_def)

lemma mark_notified_other:
  assumes "distinct (map row_id tbl)" "set E \<subseteq> set tbl"
    and "\<forall>d \<in> set E. user_id d \<noteq> Some (u_id u)"
  shows "rows_of u (mark_notified (map row_id E) tbl) = rows_of u tbl"
proof -
  have inj: "inj_on row_id (set tbl)" using assms(1) by (simp add: distinct_map)
  have "\<And>d. d \<in> set (rows_of u tbl) \<Longrightarrow> row_id d \<notin> set (map row_id E)"
  proof
    fix d assume d: "d \<in> set (rows_of u tbl)" and "row_id d \<in> set (map row_id E)"
    then obtain e where e: "e \<in> set E" "row_id e = row_id d" by auto
    from d have "d \<in> set tbl" "user_id d = Some (u_id u)" by (auto simp: rows_of_def)
    moreover from e assms(2) have "e \<in> set tbl" by auto
    ultimately have "e = d" using inj e(2) by (simp add: inj_on_def)
    with e(1) assms(3) \<open>user_id d = Some (u_id u)\<close> show False by auto
  qed
  then have "mark_notified (map row_id E) (rows_of u tbl) = rows_of u tbl"
    unfolding mark_notified_def by (simp add: map_idI)
  then show ?thesis by (simp add: rows_of_mark_notified)
qed


text \<open>What one iteration does, by cases.\<close>

lemma notify_user_cases:
  obtains (skip) "notify_user env t u s = (s, None)"
      "\<not> wants_expiring u \<or> (deals_error env u = None \<and> expiring t u (deals_now s) = [])"
  | (query) e where "notify_user env t u s = (s, Some e)" "wants_expiring u" "deals_error env u = Some e"
  | (mail) e where "notify_user env t u s
        = (s\<lparr>events := events s @ [MailFailed u (expiring t u (deals_now s))]\<rparr>, Some e)"
      "wants_expiring u" "deals_error env u = None" "expiring t u (deals_now s) \<noteq> []"
      "sendMail_error env (u_email u) (expiring t u (deals_now s)) = Some e"
  | (update) e where "notify_user env t u s
        = (s\<lparr>events := events s @ [MailSent u (expiring t u (deals_now s)),
              UpdateFailed u (map row_id (expiring t u (deals_now s)))]\<rparr>, None)"
      "wants_expiring u" "deals_error env u = None" "expiring t u (deals_now s) \<noteq> []"
      "update_error env (map row_id (expiring t u (deals_now s))) = Some e"
  | (sent) "notify_user env t u s
        = (s\<lparr>deals_now := mark_notified (map row_id (expiring t u (deals_now s))) (deals_now s),
             events := events s @ [MailSent u (expiring t u (deals_now s)),
              MarkedNotified u (map row_id (expiring t u (deals_now s)))]\<rparr>, None)"
      "wants_expiring u" "deals_error env u = None" "expiring t u (deals_now s) \<noteq> []"
  unfolding notify_user_def Let_def
  by (cases "wants_expiring u"; cases "deals_error env u";
      cases "expiring t u (deals_now s) = []";
      cases "sendMail_error env (u_email u) (expiring t u (deals_now s))";
      cases "update_error env (map row_id (expiring t u (deals_now s)))") simp_all

lemma notify_user_ids:
  "notify_user env t u s = (s', r) \<Longrightarrow> map row_id (deals_now s') = map row_id (deals_now s)"
  by (cases env t u s rule: notify_user_cases) (auto simp: mark_notified_ids)

lemma notify_user_events:
  "notify_user env t u s = (s', r) \<Longrightarrow>
     \<exists>new. events s' = events s @ new \<and> (\<forall>ev \<in> set new. ev_user ev = u)"
  by (cases env t u s rule: notify_user_cases) auto

lemma notify_user_frame:
  assumes "notify_user env t u s = (s', r)" "u_id v \<noteq> u_id u"
    and "distinct (map row_id (deals_now s))"
  shows "rows_of v (deals_now s') = rows_of v (deals_now s)"
proof (cases env t u s rule: notify_user_cases)
  case sent
  have "rows_of v (mark_notified (map row_id (expiring t u (deals_now s))) (deals_now s))
      = rows_of v (deals_now s)"
  proof (rule mark_notified_other [OF assms(3)])
    show "set (expiring t u (deals_now s)) \<subseteq> set (deals_now s)"
      using expiring_subset rows_of_subset by blast
    show "\<forall>d \<in> set (expiring t u (deals_now s)). user_id d \<noteq> Some (u_id v)"
      using assms(2) by (auto simp: expiring_def)
  qed
  with sent assms(1) show ?thesis by auto
qed (use assms(1) in auto)


lemma notify_loop_events:
  "notify_loop env t us s = (s', r) \<Longrightarrow>
     \<exists>new. events s' = events s @ new \<and> (\<forall>ev \<in> set new. ev_user ev \<in> set us)"
proof (induction us arbitrary: s)
  case Nil
  then show ?case by simp
next
  case (Cons u us)
  obtain s1 r1 where u: "notify_user env t u s = (s1, r1)" by (cases "notify_user env t u s")
  from notify_user_events [OF u] obtain n1
    where n1: "events s1 = events s @ n1" "\<forall>ev \<in> set n1. ev_user ev = u" by blast
  show ?case
  proof (cases r1)
    case None
    with Cons.prems u have "notify_loop env t us s1 = (s', r)" by simp
    from Cons.IH [OF this] obtain n2
      where n2: "events s' = events s1 @ n2" "\<forall>ev \<in> set n2. ev_user ev \<in> set us" by blast
    from n1 n2 have "events s' = events s @ (n1 @ n2)
        \<and> (\<forall>ev \<in> set (n1 @ n2). ev_user ev \<in> set (u # us))" by auto
    then show ?thesis by blast
  next
    case (Some e)
    with Cons.prems u have "s' = s1" by simp
    with n1 have "events s' = events s @ n1 \<and> (\<forall>ev \<in> set n1. ev_user ev \<in> set (u # us))"
      by auto
    then show ?thesis by blast
  qed
qed

lemma notify_loop_frame:
  assumes "notify_loop env t us s = (s', r)" "u_id v \<notin> u_id ` set us"
    and "distinct (map row_id (deals_now s))"
  shows "rows_of v (deals_now s') = rows_of v (deals_now s)"
  using assms
proof (induction us arbitrary: s)
  case Nil
  then show ?case by simp
next
  case (Cons u us)
  obtain s1 r1 where u: "notify_user env t u s = (s1, r1)" by (cases "notify_user env t u s")
  from Cons.prems(2) have ne: "u_id v \<noteq> u_id u" and rest: "u_id v \<notin> u_id ` set us" by auto
  have f1: "rows_of v (deals_now s1) = rows_of v (deals_now s)"
    by (rule notify_user_frame [OF u ne Cons.prems(3)])
  have d1: "distinct (map row_id (deals_now s1))"
    using notify_user_ids [OF u] Cons.prems(3) by simp
  show ?case
  proof (cases r1)
    case None
    with Cons.prems(1) u have "notify_loop env t us s1 = (s', r)" by simp
    from Cons.IH [OF this rest d1] f1 show ?thesis by simp
  next
    case (Some e)
    with Cons.prems(1) u have "s' = s1" by simp
    with f1 show ?thesis by simp
  qed
qed

lemma notify_loop_append:
  "notify_loop env t (us @ vs) s =
     (case notify_loop env t us s of
        (s1, Some e) \<Rightarrow> (s1, Some e)
      | (s1, None) \<Rightarrow> notify_loop env t vs s1)"
proof (induction us arbitrary: s)
  case Nil
  show ?case by simp
next
  case (Cons u us)
  show ?case
    by (cases "notify_user env t u s") (simp add: Cons.IH split: option.split)
qed

lemma events_of_append: "events_of u (xs @ ys) = events_of u xs @ events_of u ys"
  by (simp add: events_of_def)

lemma events_of_none: "\<forall>ev \<in> set new. ev_user ev \<noteq> u \<Longrightarrow> events_of u new = []"
  by (induction new) (simp_all add: events_of_def)










text \<open>A sweep that reaches a user: the runs before, at and after the user.\<close>

lemma notify_loop_split:
  assumes "notify_loop env t (pre @ u # post) s0 = (s, r)"
  obtains (before) s1 e where "notify_loop env t pre s0 = (s1, Some e)" "s = s1" "r = Some e"
  | (at) s1 s2 e where "notify_loop env t pre s0 = (s1, None)"
      "notify_user env t u s1 = (s2, Some e)" "s = s2" "r = Some e"
  | (after) s1 s2 where "notify_loop env t pre s0 = (s1, None)"
      "notify_user env t u s1 = (s2, None)" "notify_loop env t post s2 = (s, r)"
proof -
  obtain s1 r1 where p: "notify_loop env t pre s0 = (s1, r1)"
    by (cases "notify_loop env t pre s0")
  obtain s2 r2 where q: "notify_user env t u s1 = (s2, r2)"
    by (cases "notify_user env t u s1")
  show thesis
  proof (cases r1)
    case (Some e)
    with assms p have "s = s1" "r = Some e" by (simp_all add: notify_loop_append)
    with p Some before show thesis by simp
  next
    case None
    note r1 = this
    show thesis
    proof (cases r2)
      case (Some e)
      with assms p q r1 have "s = s2" "r = Some e" by (simp_all add: notify_loop_append)
      with p q r1 Some at show thesis by simp
    next
      case None
      with assms p q r1 have "notify_loop env t post s2 = (s, r)"
        by (simp add: notify_loop_append)
      with p q r1 None after show thesis by simp
    qed
  qed
qed




text \<open>
  C2. Whenever sending a user's notification fails, the sweep leaves every row of that
  user as it was, and the failed mail is the only thing the sweep did for that user: no
  update follows it.
\<close>

theorem mail_failure_marks_nothing:
  assumes uids: "distinct (map u_id (users d))"
    and rids: "distinct (map row_id (deals d))"
    and run: "checkAndNotifyExpiringDeals env d = (s, r)"
    and fail: "MailFailed u ds \<in> set (events s)"
  shows "rows_of u (deals_now s) = rows_of u (deals d)
    \<and> events_of u (events s) = [MailFailed u ds]
    \<and> r \<noteq> None"
proof -
  let ?t = "now env + three_days"
  let ?s0 = "\<lparr>deals_now = deals d, events = []\<rparr>"
  from run fail have loop: "notify_loop env ?t (users d) ?s0 = (s, r)"
    by (cases "users_error env") (auto simp: checkAndNotifyExpiringDeals_def)
  from notify_loop_events [OF loop] fail have "u \<in> set (users d)" by auto
  then obtain pre post where sp: "users d = pre @ u # post"
    by (auto simp: in_set_conv_decomp)
  from uids sp have nid: "u_id u \<notin> u_id ` set pre" "u_id u \<notin> u_id ` set post"
    and nin: "u \<notin> set pre" "u \<notin> set post" by auto
  from loop sp have "notify_loop env ?t (pre @ u # post) ?s0 = (s, r)" by simp
  then show ?thesis
  proof (cases rule: notify_loop_split)
    case (before s1 e)
    from notify_loop_events [OF before(1)] before(2) fail nin(1) show ?thesis by auto
  next
    case (at s1 s2 e)
    from notify_loop_events [OF at(1)] nin(1)
    have n1: "\<forall>ev \<in> set (events s1). ev_user ev \<noteq> u" by auto
    have r1: "rows_of u (deals_now s1) = rows_of u (deals d)"
      using notify_loop_frame [OF at(1) nid(1)] rids by simp
    show ?thesis
    proof (cases env ?t u s1 rule: notify_user_cases)
      case skip
      with at(2) show ?thesis by simp
    next
      case (query e')
      with at(2,3) fail n1 show ?thesis by auto
    next
      case (mail e')
      with at(2,3) have s: "deals_now s = deals_now s1"
        "events s = events s1 @ [MailFailed u (expiring ?t u (deals_now s1))]" by auto
      with fail n1 have ds: "ds = expiring ?t u (deals_now s1)" by auto
      have "events_of u (events s) = [MailFailed u ds]"
        using s(2) ds events_of_none [OF n1] by (simp add: events_of_append) (simp add: events_of_def)
      with s(1) r1 at(4) show ?thesis by simp
    next
      case (update e')
      with at(2) show ?thesis by simp
    next
      case sent
      with at(2) show ?thesis by simp
    qed
  next
    case (after s1 s2)
    from notify_loop_events [OF after(1)] nin(1)
    have n1: "\<forall>ev \<in> set (events s1). ev_user ev \<noteq> u" by auto
    from notify_loop_events [OF after(3)] obtain n3
      where n3: "events s = events s2 @ n3" "\<forall>ev \<in> set n3. ev_user ev \<in> set post" by auto
    have "MailFailed u ds \<notin> set (events s1)"
      using n1 by force
    then have "MailFailed u ds \<notin> set (events s2)"
      using after(2) by (cases env ?t u s1 rule: notify_user_cases) auto
    with n3 nin(2) fail show ?thesis by auto
  qed
qed


section \<open>Scanning the mailbox\<close>

lemma saveDeal_calls:
  "insert_calls (snd (saveDeal env uid dd st))
     = insert_calls st @ [new_row env (fresh_id (table st)) uid dd]"
  by (simp add: saveDeal_def Let_def split: option.split)

lemma saveDeal_Inl:
  "fst (saveDeal env uid dd st) = Inl e \<Longrightarrow> table (snd (saveDeal env uid dd st)) = table st"
  by (simp add: saveDeal_def Let_def split: option.splits if_splits)

lemma saveDeal_Inr:
  assumes "fst (saveDeal env uid dd st) = Inr row"
  shows "table (snd (saveDeal env uid dd st)) = table st @ [row]"
    and "row = new_row env (fresh_id (table st)) uid dd"
    and "row_restaurant row \<noteq> None" and "deal_description row \<noteq> None"
  using assms by (simp_all add: saveDeal_def Let_def split: option.splits if_splits)


lemma process_email_grows:
  "\<exists>new. table (st_store (process_email env u e st)) = table (st_store st) @ new
     \<and> processedDeals (process_email env u e st) = processedDeals st @ new
     \<and> (\<forall>r \<in> set new. row_restaurant r \<noteq> None \<and> deal_description r \<noteq> None)"
proof (cases "extract_draft env e")
  case None
  then show ?thesis by (simp add: process_email_def)
next
  case (Some info)
  obtain res store' where sd: "saveDeal env (u_id u) (assemble env e info) (st_store st) = (res, store')"
    by (cases "saveDeal env (u_id u) (assemble env e info) (st_store st)")
  show ?thesis
  proof (cases res)
    case (Inl err)
    with sd saveDeal_Inl [of env "u_id u" "assemble env e info" "st_store st" err]
    show ?thesis using Some by (simp add: process_email_def)
  next
    case (Inr row)
    with sd saveDeal_Inr [of env "u_id u" "assemble env e info" "st_store st" row]
    show ?thesis using Some by (simp add: process_email_def)
  qed
qed

lemma process_email_calls:
  "map (\<lambda>r. (row_restaurant r, deal_description r)) (insert_calls (st_store (process_email env u e st)))
     = map (\<lambda>r. (row_restaurant r, deal_description r)) (insert_calls (st_store st))
       @ map (\<lambda>i. (restaurant i, dealDescription i)) (drafts env [e])"
proof (cases "extract_draft env e")
  case None
  then show ?thesis by (simp add: process_email_def drafts_def List.map_filter_simps)
next
  case (Some info)
  obtain res store' where sd: "saveDeal env (u_id u) (assemble env e info) (st_store st) = (res, store')"
    by (cases "saveDeal env (u_id u) (assemble env e info) (st_store st)")
  have c: "insert_calls store' = insert_calls (st_store st)
      @ [new_row env (fresh_id (table (st_store st))) (u_id u) (assemble env e info)]"
    using saveDeal_calls [of env "u_id u" "assemble env e info" "st_store st"] sd by simp
  have f: "row_restaurant (new_row env k (u_id u) (assemble env e info)) = restaurant info"
    "deal_description (new_row env k (u_id u) (assemble env e info)) = dealDescription info" for k
    by (simp_all add: new_row_def assemble_def Let_def)
  show ?thesis using Some sd c f
    by (cases res) (simp_all add: process_email_def drafts_def List.map_filter_simps)
qed

lemma drafts_append: "drafts env (xs @ ys) = drafts env xs @ drafts env ys"
  by (simp add: drafts_def List.map_filter_def)

lemma process_emails_Cons:
  "process_emails env u (e # es) st = process_emails env u es (process_email env u e st)"
  by (simp add: process_emails_def)


lemma process_emails_grows:
  "\<exists>new. table (st_store (process_emails env u es st)) = table (st_store st) @ new
     \<and> processedDeals (process_emails env u es st) = processedDeals st @ new
     \<and> (\<forall>r \<in> set new. row_restaurant r \<noteq> None \<and> deal_description r \<noteq> None)"
proof (induction es arbitrary: st)
  case Nil
  show ?case by (simp add: process_emails_def)
next
  case (Cons e es)
  from process_email_grows [of env u e st] obtain n1
    where n1: "table (st_store (process_email env u e st)) = table (st_store st) @ n1"
      "processedDeals (process_email env u e st) = processedDeals st @ n1"
      "\<forall>r \<in> set n1. row_restaurant r \<noteq> None \<and> deal_description r \<noteq> None" by blast
  from Cons.IH [of "process_email env u e st"] obtain n2
    where n2: "table (st_store (process_emails env u es (process_email env u e st)))
        = table (st_store (process_email env u e st)) @ n2"
      "processedDeals (process_emails env u es (process_email env u e st))
        = processedDeals (process_email env u e st) @ n2"
      "\<forall>r \<in> set n2. row_restaurant r \<noteq> None \<and> deal_description r \<noteq> None" by blast
  have "table (st_store (process_emails env u (e # es) st)) = table (st_store st) @ (n1 @ n2)
     \<and> processedDeals (process_emails env u (e # es) st) = processedDeals st @ (n1 @ n2)
     \<and> (\<forall>r \<in> set (n1 @ n2). row_restaurant r \<noteq> None \<and> deal_description r \<noteq> None)"
    using n1 n2 by (auto simp: process_emails_Cons)
  then show ?case by blast
qed

lemma process_emails_calls:
  "map (\<lambda>r. (row_restaurant r, deal_description r)) (insert_calls (st_store (process_emails env u es st)))
     = map (\<lambda>r. (row_restaurant r, deal_description r)) (insert_calls (st_store st))
       @ map (\<lambda>i. (restaurant i, dealDescription i)) (drafts env es)"
proof (induction es arbitrary: st)
  case Nil
  show ?case by (simp add: process_emails_def drafts_def List.map_filter_simps)
next
  case (Cons e es)
  have "drafts env (e # es) = drafts env [e] @ drafts env es"
    using drafts_append [of env "[e]" es] by simp
  then show ?case
    by (simp only: process_emails_Cons Cons.IH process_email_calls map_append append_assoc)
qed




text \<open>
  C3, as the code has it. The loop hands every extracted draft to the storage insert,
  with the draft's \<^verbatim>\<open>restaurant\<close> and \<^verbatim>\<open>dealDescription\<close> whatever they are; it is
  the store that rejects a row in which either is missing, and the error is caught.
  So the rows a scan adds to the table, which are the deals it reports, all have both.
\<close>

theorem scan_persists_nonnull_rows:
  assumes "scan_deals env d userEmail = (resp, st)"
  shows "\<exists>new. table (st_store st) = deals d @ new
      \<and> processedDeals st = new
      \<and> (\<forall>r \<in> set new. row_restaurant r \<noteq> None \<and> deal_description r \<noteq> None)
      \<and> (\<forall>u tokens emails. getUserByEmail env d userEmail = Inr (Some u)
            \<and> gmail_tokens u = Some tokens \<and> fetch_emails env tokens = Inr emails \<longrightarrow>
            resp = Json200 new
            \<and> map (\<lambda>r. (row_restaurant r, deal_description r)) (insert_calls (st_store st))
              = map (\<lambda>i. (restaurant i, dealDescription i)) (drafts env emails))"
proof -
  consider (batch) u tokens emails where "getUserByEmail env d userEmail = Inr (Some u)"
      "gmail_tokens u = Some tokens" "fetch_emails env tokens = Inr emails"
    | (none) "st = scan_start d" "\<not> (\<exists>u tokens emails. getUserByEmail env d userEmail = Inr (Some u)
        \<and> gmail_tokens u = Some tokens \<and> fetch_emails env tokens = Inr emails)"
    using assms
    by (auto simp: scan_deals_def Let_def split: sum.splits option.splits)
  then show ?thesis
  proof cases
    case batch
    with assms have st: "st = process_emails env u emails (scan_start d)"
      and resp: "resp = Json200 (processedDeals st)"
      by (auto simp: scan_deals_def Let_def)
    from process_emails_grows [of env u emails "scan_start d"] st obtain new
      where new: "table (st_store st) = deals d @ new" "processedDeals st = new"
        "\<forall>r \<in> set new. row_restaurant r \<noteq> None \<and> deal_description r \<noteq> None"
      by (auto simp: scan_start_def)
    have calls: "map (\<lambda>r. (row_restaurant r, deal_description r)) (insert_calls (st_store st))
        = map (\<lambda>i. (restaurant i, dealDescription i)) (drafts env emails)"
      using process_emails_calls [of env u emails "scan_start d"] st by (simp add: scan_start_def)
    from batch new calls resp show ?thesis by auto
  next
    case none
    then have "table (st_store st) = deals d @ [] \<and> processedDeals st = []"
      by (simp add: scan_start_def)
    with none(2) show ?thesis by (intro exI [of _ "[]"]) auto
  qed
qed


theorem scan_persists_nonnull_rows_witness:
  "table (st_store (snd (scan_deals (scan_sample [kfc_mail, anon_mail]) sample_db ''alice@example.com'')))
     = deals sample_db
       @ processedDeals (snd (scan_deals (scan_sample [kfc_mail, anon_mail]) sample_db ''alice@example.com''))
   \<and> map row_restaurant
       (processedDeals (snd (scan_deals (scan_sample [kfc_mail, anon_mail]) sample_db ''alice@example.com'')))
     = [Some ''KFC'']
   \<and> map (\<lambda>r. (row_restaurant r, deal_description r))
       (insert_calls (st_store (snd (scan_deals (scan_sample [kfc_mail, anon_mail]) sample_db
          ''alice@example.com''))))
     = [(Some ''KFC'', Some ''Two for one''), (None, Some ''Free fries'')]"
proof -
  let ?r = "scan_deals (scan_sample [kfc_mail, anon_mail]) sample_db ''alice@example.com''"
  have "?r = (fst ?r, snd ?r)" by simp
  from scan_persists_nonnull_rows [OF this] obtain new
    where "table (st_store (snd ?r)) = deals sample_db @ new" "processedDeals (snd ?r) = new"
    by blast
  then have a: "table (st_store (snd ?r)) = deals sample_db @ processedDeals (snd ?r)" by simp
  have b: "map row_restaurant (processedDeals (snd ?r)) = [Some ''KFC'']" by code_simp
  have c: "map (\<lambda>r. (row_restaurant r, deal_description r)) (insert_calls (st_store (snd ?r)))
      = [(Some ''KFC'', Some ''Two for one''), (None, Some ''Free fries'')]" by code_simp
  from a b c show ?thesis by simp
qed

text \<open>
  The claim as worded fails on a draft without a restaurant: the loop does not discard
  it, the storage insert is asked to store it.
\<close>

theorem scan_inserts_draft_without_restaurant:
  "extract_draft (scan_sample [anon_mail]) anon_mail = Some anon_draft
   \<and> restaurant anon_draft = None
   \<and> map row_restaurant
       (insert_calls (st_store (snd (scan_deals (scan_sample [anon_mail]) sample_db ''alice@example.com''))))
     = [None]"
proof -
  have "extract_draft (scan_sample [anon_mail]) anon_mail = Some anon_draft" by code_simp
  moreover have "restaurant anon_draft = None" by (simp add: anon_draft_def)
  moreover have "map row_restaurant
      (insert_calls (st_store (snd (scan_deals (scan_sample [anon_mail]) sample_db ''alice@example.com''))))
      = [None]" by code_simp
  ultimately show ?thesis by simp
qed





section \<open>The notifier on the sample data\<close>


theorem mail_failure_marks_nothing_witness:
  "distinct (map u_id (users bob_first)) \<and> distinct (map row_id (deals bob_first))
   \<and> MailFailed alice [deal_A] \<in> set (events (fst (checkAndNotifyExpiringDeals alice_bounces bob_first)))
   \<and> MarkedNotified bob [13] \<in> set (events (fst (checkAndNotifyExpiringDeals alice_bounces bob_first)))
   \<and> rows_of alice (deals_now (fst (checkAndNotifyExpiringDeals alice_bounces bob_first)))
     = [deal_A, deal_B, deal_C]
   \<and> events_of alice (events (fst (checkAndNotifyExpiringDeals alice_bounces bob_first)))
     = [MailFailed alice [deal_A]]
   \<and> snd (checkAndNotifyExpiringDeals alice_bounces bob_first) \<noteq> None"
proof -
  let ?r = "checkAndNotifyExpiringDeals alice_bounces bob_first"
  have uids: "distinct (map u_id (users bob_first))" by code_simp
  have rids: "distinct (map row_id (deals bob_first))" by code_simp
  have run: "?r = (fst ?r, snd ?r)" by simp
  have ev: "events (fst ?r) = [MailSent bob [deal_D], MarkedNotified bob [13], MailFailed alice [deal_A]]"
    by code_simp
  then have fail: "MailFailed alice [deal_A] \<in> set (events (fst ?r))"
    and bob: "MarkedNotified bob [13] \<in> set (events (fst ?r))" by simp_all
  have rows: "rows_of alice (deals bob_first) = [deal_A, deal_B, deal_C]" by code_simp
  from mail_failure_marks_nothing [OF uids rids run fail] rows
  have "rows_of alice (deals_now (fst ?r)) = [deal_A, deal_B, deal_C]"
    and "events_of alice (events (fst ?r)) = [MailFailed alice [deal_A]]"
    and "snd ?r \<noteq> None" by simp_all
  with uids rids fail bob show ?thesis by simp
qed


end
